theory Spec2Isabelle
  imports Complex_Main "HOL-Library.Char_ord" "HOL-Library.List_Lexorder" "HOL-Library.Multiset"
begin

section \<open>Python values, exceptions and library functions\<close>

text \<open>
  The selection and extraction modules of \<^verbatim>\<open>gradient_selection\<close> work on dynamically typed
  values: table cells read by pandas and the results of \<^verbatim>\<open>json.loads\<close>. A value is one of
  \<^verbatim>\<open>None\<close>, a bool, an int, a float, a str, a list or a dict with string keys. The float
  \<^verbatim>\<open>nan\<close>, which pandas puts into every empty cell of a table read from CSV, is a value of
  its own (\<open>PNaN\<close>); the finite floats are reals. A dict is an association list in insertion
  order; lookups go through \<open>map_of\<close>.
\<close>

datatype pyval =
    PNone
  | PBool bool
  | PInt int
  | PFloat real
  | PNaN
  | PStr string
  | PList "pyval list"
  | PDict "(string \<times> pyval) list"

datatype exn_class =
  AttributeError | TypeError | JSONDecodeError | RuntimeError | ValueError | APIError

text \<open>An exception is its class and its message; \<^verbatim>\<open>str(exc)\<close> is the message.\<close>

type_synonym pyexn = "exn_class \<times> string"

definition exn_str :: "pyexn \<Rightarrow> string" where
  "exn_str e = snd e"

text \<open>A call that may raise is a value of \<open>pyexn + 'a\<close>; \<open>exn_bind\<close> runs the rest of the
  body on the result and passes an exception on.\<close>

definition exn_bind :: "pyexn + 'a \<Rightarrow> ('a \<Rightarrow> pyexn + 'b) \<Rightarrow> pyexn + 'b" where
  "exn_bind m f = (case m of Inl e \<Rightarrow> Inl e | Inr x \<Rightarrow> f x)"

text \<open>
  The functions of the Python standard library that the code calls and that are not part of
  the repository are parameters of the model:
  \<^item> \<open>json_loads\<close> is \<^verbatim>\<open>json.loads\<close> on a str: \<open>Inr v\<close> is the parsed value, \<open>Inl m\<close> is a
    \<^verbatim>\<open>JSONDecodeError\<close> with message \<open>m\<close>;
  \<^item> \<open>json_dumps\<close> is \<^verbatim>\<open>json.dumps\<close> (with \<^verbatim>\<open>ensure_ascii=True\<close>, its default);
  \<^item> \<open>py_repr\<close> is \<^verbatim>\<open>str(v)\<close> for a value that is not a str.
\<close>

record pylib =
  json_loads :: "string \<Rightarrow> string + pyval"
  json_dumps :: "pyval \<Rightarrow> string"
  py_repr :: "pyval \<Rightarrow> string"

definition py_str :: "pylib \<Rightarrow> pyval \<Rightarrow> string" where
  "py_str L v = (case v of PStr s \<Rightarrow> s | _ \<Rightarrow> py_repr L v)"

text \<open>Truth value testing (\<^verbatim>\<open>if v:\<close>, \<^verbatim>\<open>not v\<close>). \<^verbatim>\<open>bool(float('nan'))\<close> is \<^verbatim>\<open>True\<close>.\<close>

fun py_truthy :: "pyval \<Rightarrow> bool" where
  "py_truthy PNone = False"
| "py_truthy (PBool b) = b"
| "py_truthy (PInt i) = (i \<noteq> 0)"
| "py_truthy (PFloat x) = (x \<noteq> 0)"
| "py_truthy PNaN = True"
| "py_truthy (PStr s) = (s \<noteq> [])"
| "py_truthy (PList xs) = (xs \<noteq> [])"
| "py_truthy (PDict kvs) = (kvs \<noteq> [])"

fun type_name :: "pyval \<Rightarrow> string" where
  "type_name PNone = ''NoneType''"
| "type_name (PBool b) = ''bool''"
| "type_name (PInt i) = ''int''"
| "type_name (PFloat x) = ''float''"
| "type_name PNaN = ''float''"
| "type_name (PStr s) = ''str''"
| "type_name (PList xs) = ''list''"
| "type_name (PDict kvs) = ''dict''"

definition quoted :: "string \<Rightarrow> string" where
  "quoted s = CHR 0x27 # s @ [CHR 0x27]"

definition no_attribute :: "pyval \<Rightarrow> string \<Rightarrow> pyexn" where
  "no_attribute v a =
     (AttributeError, quoted (type_name v) @ '' object has no attribute '' @ quoted a)"

definition not_iterable :: "pyval \<Rightarrow> pyexn" where
  "not_iterable v = (TypeError, quoted (type_name v) @ '' object is not iterable'')"

definition unhashable :: "pyval \<Rightarrow> pyexn" where
  "unhashable v = (TypeError, ''unhashable type: '' @ quoted (type_name v))"

text \<open>\<^verbatim>\<open>d.get(k, default)\<close>: only a dict has the method.\<close>

definition py_get :: "pyval \<Rightarrow> string \<Rightarrow> pyval \<Rightarrow> pyexn + pyval" where
  "py_get d k dflt =
     (case d of
        PDict kvs \<Rightarrow> Inr (case map_of kvs k of None \<Rightarrow> dflt | Some v \<Rightarrow> v)
      | _ \<Rightarrow> Inl (no_attribute d ''get''))"

text \<open>
  \<^verbatim>\<open>for r in v\<close>: a list yields its elements, a str its characters, a dict its keys;
  nothing else here is iterable.
\<close>

definition py_iter :: "pyval \<Rightarrow> pyexn + pyval list" where
  "py_iter v =
     (case v of
        PList xs \<Rightarrow> Inr xs
      | PStr s \<Rightarrow> Inr (map (\<lambda>c. PStr [c]) s)
      | PDict kvs \<Rightarrow> Inr (map (\<lambda>kv. PStr (fst kv)) kvs)
      | _ \<Rightarrow> Inl (not_iterable v))"

text \<open>
  \<^verbatim>\<open>v in S\<close> for a set \<open>S\<close> of strings: the value is hashed first, so a list or a dict
  raises; a hashable value that is not a str equals no member.
\<close>

definition in_str_set :: "pyval \<Rightarrow> string list \<Rightarrow> pyexn + bool" where
  "in_str_set v S =
     (case v of
        PList xs \<Rightarrow> Inl (unhashable v)
      | PDict kvs \<Rightarrow> Inl (unhashable v)
      | PStr s \<Rightarrow> Inr (s \<in> set S)
      | _ \<Rightarrow> Inr False)"

subsection \<open>Strings\<close>

text \<open>
  Strings are lists of ASCII characters. \<^verbatim>\<open>str.lower\<close> maps \<open>A\<close>..\<open>Z\<close> to \<open>a\<close>..\<open>z\<close>,
  \<^verbatim>\<open>str.strip\<close> removes leading and trailing whitespace, \<^verbatim>\<open>n in h\<close> is the substring test,
  \<^verbatim>\<open>str.find\<close> and \<^verbatim>\<open>str.rfind\<close> give the first and the last position of a character, or -1.
\<close>

definition lower_char :: "char \<Rightarrow> char" where
  "lower_char c =
     (case map_of (zip ''ABCDEFGHIJKLMNOPQRSTUVWXYZ'' ''abcdefghijklmnopqrstuvwxyz'') c of
        None \<Rightarrow> c | Some d \<Rightarrow> d)"

definition lower :: "string \<Rightarrow> string" where
  "lower s = map lower_char s"

definition is_space :: "char \<Rightarrow> bool" where
  "is_space c =
     (c \<in> set [CHR 0x09, CHR 0x0A, CHR 0x0B, CHR 0x0C, CHR 0x0D,
               CHR 0x1C, CHR 0x1D, CHR 0x1E, CHR 0x1F, CHR '' ''])"

definition strip :: "string \<Rightarrow> string" where
  "strip s = rev (dropWhile is_space (rev (dropWhile is_space s)))"

fun contains_str :: "string \<Rightarrow> string \<Rightarrow> bool" where
  "contains_str n [] = (n = [])"
| "contains_str n (c # cs) = (take (length n) (c # cs) = n \<or> contains_str n cs)"

fun find_from :: "char \<Rightarrow> string \<Rightarrow> int \<Rightarrow> int" where
  "find_from c [] i = -1"
| "find_from c (x # xs) i = (if x = c then i else find_from c xs (i + 1))"

definition find_char :: "string \<Rightarrow> char \<Rightarrow> int" where
  "find_char s c = find_from c s 0"

definition rfind_char :: "string \<Rightarrow> char \<Rightarrow> int" where
  "rfind_char s c =
     (let r = find_from c (rev s) 0 in if r = -1 then -1 else int (length s) - 1 - r)"

text \<open>\<^verbatim>\<open>s[a:b]\<close> for \<open>0 \<le> a\<close> and \<open>0 \<le> b\<close>.\<close>

definition slice :: "string \<Rightarrow> int \<Rightarrow> int \<Rightarrow> string" where
  "slice s a b = take (nat b - nat a) (drop (nat a) s)"

section \<open>Selection (\<^verbatim>\<open>selection.py\<close>)\<close>

definition ALLOWED_DIAGNOSES :: "string list" where
  "ALLOWED_DIAGNOSES = [''Primary Lung Cancer'', ''No Cancer'']"

definition ALLOWED_REASONS :: "string list" where
  "ALLOWED_REASONS = [''Indeterminate Pulmonary Nodule'']"

text \<open>A row handed to \<^verbatim>\<open>evaluate_row\<close> is a \<^verbatim>\<open>pd.Series\<close>; \<^verbatim>\<open>row.get(k)\<close> is \<^verbatim>\<open>None\<close> for a
  missing label.\<close>

type_synonym series = "string \<rightharpoonup> pyval"

definition series_get :: "series \<Rightarrow> string \<Rightarrow> pyval" where
  "series_get row k = (case row k of None \<Rightarrow> PNone | Some v \<Rightarrow> v)"

definition parse_json_cell :: "pylib \<Rightarrow> pyval \<Rightarrow> pyval" where
  "parse_json_cell L v =
     (case v of
        PNone \<Rightarrow> PDict []
      | PDict kvs \<Rightarrow> PDict kvs
      | _ \<Rightarrow> (case json_loads L (py_str L v) of Inr p \<Rightarrow> p | Inl m \<Rightarrow> PDict []))"

text \<open>\<^verbatim>\<open>json.loads(value)\<close> raises \<^verbatim>\<open>TypeError\<close> for a value that is not a str; the
  \<^verbatim>\<open>except Exception\<close> swallows it like a parse failure.\<close>

definition list_empty :: "pylib \<Rightarrow> pyval \<Rightarrow> bool" where
  "list_empty L v =
     (case v of
        PNone \<Rightarrow> True
      | PList xs \<Rightarrow> length xs = 0
      | PStr s \<Rightarrow> (case json_loads L s of
                     Inr (PList ys) \<Rightarrow> length ys = 0
                   | _ \<Rightarrow> False)
      | _ \<Rightarrow> False)"

fun contains_chest_loop :: "pyval list \<Rightarrow> pyexn + bool" where
  "contains_chest_loop [] = Inr False"
| "contains_chest_loop (r # rs) =
     (case r of
        PStr s \<Rightarrow> if contains_str ''chest'' (lower s) then Inr True else contains_chest_loop rs
      | _ \<Rightarrow> Inl (no_attribute r ''lower''))"

definition contains_chest :: "pyval \<Rightarrow> pyexn + bool" where
  "contains_chest regions =
     (case py_iter regions of Inl e \<Rightarrow> Inl e | Inr rs \<Rightarrow> contains_chest_loop rs)"

text \<open>
  \<^verbatim>\<open>evaluate_row\<close> returns the verdict and the list of reasons, or raises. The reasons
  are appended in the order of the source; the \<^verbatim>\<open>cfg\<close> argument is not used by the code.
\<close>

definition evaluate_row :: "pylib \<Rightarrow> series \<Rightarrow> pyexn + bool \<times> string list" where
  "evaluate_row L row =
     (if py_truthy (series_get row ''extraction_error'') then Inr (False, [''extraction_error''])
      else
        let ct = parse_json_cell L (series_get row ''ct_json'');
            pet = parse_json_cell L (series_get row ''pet_json'')
        in
        exn_bind (py_get ct ''CT_Regions'' (PList [])) (\<lambda>ct_regions.
        exn_bind (py_get ct ''CT_Contrast_Agent'' (PStr [])) (\<lambda>ct_contrast.
        exn_bind (py_get ct ''Lung_Nodules'' (PList [])) (\<lambda>lung_nodules.
        exn_bind (contains_chest ct_regions) (\<lambda>chest.
        let reasons = [];
            reasons = (if \<not> chest then reasons @ [''ct_not_chest''] else reasons);
            reasons = (if lower (strip (py_str L ct_contrast)) \<noteq> ''none''
                       then reasons @ [''ct_contrast_present''] else reasons);
            reasons = (if \<not> py_truthy lung_nodules \<or> lung_nodules = PList []
                       then reasons @ [''no_lung_nodules''] else reasons)
        in
        exn_bind (py_get pet ''Clinical_Reason'' (PStr [])) (\<lambda>clinical_reason.
        exn_bind (py_get pet ''Primary_Diagnosis'' (PStr [])) (\<lambda>primary_dx.
        exn_bind (py_get pet ''Lymph_Nodes_Hypermetabolic_Regions'' (PList [])) (\<lambda>lymph_nodes.
        exn_bind (py_get pet ''Other_Hypermetabolic_Regions'' (PList [])) (\<lambda>other_hyper.
        exn_bind (in_str_set clinical_reason ALLOWED_REASONS) (\<lambda>reason_ok.
        let reasons = (if \<not> reason_ok
                       then reasons @ [''pet_reason_not_indeterminate_nodule''] else reasons)
        in
        exn_bind (in_str_set primary_dx ALLOWED_DIAGNOSES) (\<lambda>dx_ok.
        let reasons = (if \<not> dx_ok then reasons @ [''pet_primary_dx_not_allowed''] else reasons);
            reasons = (if \<not> list_empty L lymph_nodes
                       then reasons @ [''pet_lymph_hypermetabolic''] else reasons);
            reasons = (if \<not> list_empty L other_hyper
                       then reasons @ [''pet_other_hypermetabolic''] else reasons)
        in Inr (length reasons = 0, reasons))))))))))))"

section \<open>LLM calls (\<^verbatim>\<open>llm.py\<close>)\<close>

text \<open>
  \<^verbatim>\<open>_parse_json\<close>: the strict parse of the stripped text; on a \<^verbatim>\<open>JSONDecodeError\<close> the
  text from the first \<open>{\<close> to the last \<open>}\<close> is parsed, and the error of that second parse
  propagates; without such a slice the first error is raised again.
\<close>

definition parse_json :: "pylib \<Rightarrow> string \<Rightarrow> pyexn + pyval" where
  "parse_json L text0 =
     (let text = strip text0 in
      case json_loads L text of
        Inr v \<Rightarrow> Inr v
      | Inl m \<Rightarrow>
          (let start = find_char text (CHR ''{'');
               end' = rfind_char text (CHR ''}'')
           in if start \<noteq> -1 \<and> end' \<noteq> -1 \<and> end' > start
              then (case json_loads L (slice text start (end' + 1)) of
                      Inr v \<Rightarrow> Inr v
                    | Inl m' \<Rightarrow> Inl (JSONDecodeError, m'))
              else Inl (JSONDecodeError, m)))"

text \<open>
  The configuration: of \<^verbatim>\<open>cfg.llm\<close> only the keys that decide the control flow are kept
  (\<open>None\<close> is a missing key). The model name, the temperature and the token limit are
  passed on to the API and read nowhere else.
\<close>

record config =
  llm_api_key :: "string option"
  llm_retries :: "int option"
  llm_concurrency :: "int option"

definition retries_of :: "config \<Rightarrow> int" where
  "retries_of cfg = (case llm_retries cfg of None \<Rightarrow> 3 | Some r \<Rightarrow> r)"

text \<open>
  The API is the environment. A client answers the attempt number \<open>a\<close> of one call of
  \<^verbatim>\<open>_extract_with_retry\<close> (prompt, report text) with the text of the response
  (\<^verbatim>\<open>response.output[0].content[0].text\<close>) or with an exception. What the call does besides
  returning is recorded as a trace of API calls and sleeps.
\<close>

type_synonym client = "string \<Rightarrow> string \<Rightarrow> int \<Rightarrow> pyexn + string"

datatype event = Call int | Sleep int

definition attempt_result :: "pylib \<Rightarrow> client \<Rightarrow> string \<Rightarrow> string \<Rightarrow> int \<Rightarrow> pyexn + pyval" where
  "attempt_result L cl prompt report_text attempt =
     exn_bind (cl prompt report_text attempt) (parse_json L)"

text \<open>The loop \<^verbatim>\<open>for attempt in range(1, retries + 1)\<close>, over the list of the attempts
  still to make. When the range is exhausted the function returns \<^verbatim>\<open>{}\<close>.\<close>

fun retry_loop ::
  "pylib \<Rightarrow> client \<Rightarrow> string \<Rightarrow> string \<Rightarrow> int \<Rightarrow> int list \<Rightarrow> event list
     \<Rightarrow> event list \<times> (pyexn + pyval)" where
  "retry_loop L cl prompt report_text retries [] tr = (tr, Inr (PDict []))"
| "retry_loop L cl prompt report_text retries (attempt # rest) tr =
     (case attempt_result L cl prompt report_text attempt of
        Inr v \<Rightarrow> (tr @ [Call attempt], Inr v)
      | Inl e \<Rightarrow>
          if attempt = retries then (tr @ [Call attempt], Inl e)
          else retry_loop L cl prompt report_text retries rest
                 (tr @ [Call attempt, Sleep (2 ^ nat attempt)]))"

definition extract_with_retry ::
  "pylib \<Rightarrow> config \<Rightarrow> client \<Rightarrow> string \<Rightarrow> string \<Rightarrow> event list \<times> (pyexn + pyval)" where
  "extract_with_retry L cfg cl prompt report_text =
     (let retries = retries_of cfg
      in retry_loop L cl prompt report_text retries [1..retries] [])"

section \<open>Extraction (\<^verbatim>\<open>extraction.py\<close>)\<close>

definition EXPECTED_CT_KEYS :: "string list" where
  "EXPECTED_CT_KEYS = [''CT_Regions'', ''CT_Contrast_Agent'', ''Lung_Nodules'']"

definition EXPECTED_PET_KEYS :: "string list" where
  "EXPECTED_PET_KEYS =
     [''Lung_Hypermetabolic_Regions'', ''Lymph_Nodes_Hypermetabolic_Regions'',
      ''Other_Hypermetabolic_Regions'', ''PET_Tracer'', ''PET_Scan_Region'',
      ''PET_Blood_Glucose_Level'', ''PET_Waiting_Time'', ''Clinical_Reason'',
      ''Primary_Diagnosis'']"

definition normalize_json_value :: "pylib \<Rightarrow> pyval \<Rightarrow> pyval" where
  "normalize_json_value L v =
     (case v of
        PNone \<Rightarrow> PStr []
      | PDict kvs \<Rightarrow> PStr (json_dumps L v)
      | PList xs \<Rightarrow> PStr (json_dumps L v)
      | _ \<Rightarrow> v)"

text \<open>\<^verbatim>\<open>item.keys()\<close>: only a dict has the method.\<close>

definition py_keys :: "pyval \<Rightarrow> pyexn + string list" where
  "py_keys d = (case d of PDict kvs \<Rightarrow> Inr (map fst kvs) | _ \<Rightarrow> Inl (no_attribute d ''keys''))"

text \<open>The set comprehension \<^verbatim>\<open>{key for item in values for key in item.keys()}\<close>, as the
  list of the keys met; the set is the set of this list.\<close>

fun discovered_keys :: "pyval list \<Rightarrow> pyexn + string list" where
  "discovered_keys [] = Inr []"
| "discovered_keys (item # items) =
     exn_bind (py_keys item) (\<lambda>ks.
     exn_bind (discovered_keys items) (\<lambda>rest. Inr (ks @ rest)))"

definition ordered_keys :: "pyval list \<Rightarrow> string list \<Rightarrow> pyexn + string list" where
  "ordered_keys values expected =
     exn_bind (discovered_keys values) (\<lambda>ks.
       let discovered = remdups ks;
           extras = sort [key \<leftarrow> discovered. key \<notin> set expected]
       in Inr ([key \<leftarrow> expected. key \<in> set discovered] @ extras))"

subsection \<open>Tables\<close>

text \<open>
  A \<^verbatim>\<open>pd.DataFrame\<close> is its index labels and its columns in order, each column a list of
  cells with one cell per label. \<^verbatim>\<open>df.head(n)\<close> keeps the first \<open>n\<close> rows, and all but the
  last \<open>-n\<close> rows for a negative \<open>n\<close>. \<^verbatim>\<open>df[name] = values\<close> replaces the column of that
  name in place or appends a new one, and raises when the lengths differ (pandas adds the
  two lengths to the message).
\<close>

record frame =
  index :: "int list"
  columns :: "(string \<times> pyval list) list"

definition wf_frame :: "frame \<Rightarrow> bool" where
  "wf_frame df =
     (distinct (map fst (columns df)) \<and>
      list_all (\<lambda>col. length (snd col) = length (index df)) (columns df))"

definition head_count :: "nat \<Rightarrow> int \<Rightarrow> nat" where
  "head_count len n = (if 0 \<le> n then min len (nat n) else len - nat (- n))"

definition frame_head :: "frame \<Rightarrow> int \<Rightarrow> frame" where
  "frame_head df n =
     (let k = head_count (length (index df)) n
      in \<lparr> index = take k (index df),
           columns = map (\<lambda>col. (fst col, take k (snd col))) (columns df) \<rparr>)"

definition frame_row :: "frame \<Rightarrow> nat \<Rightarrow> series" where
  "frame_row df i = (\<lambda>k. map_option (\<lambda>vs. vs ! i) (map_of (columns df) k))"

definition series_get_default :: "series \<Rightarrow> string \<Rightarrow> pyval \<Rightarrow> pyval" where
  "series_get_default row k dflt = (case row k of None \<Rightarrow> dflt | Some v \<Rightarrow> v)"

definition set_column :: "frame \<Rightarrow> string \<Rightarrow> pyval list \<Rightarrow> pyexn + frame" where
  "set_column df name vals =
     (if length vals \<noteq> length (index df)
      then Inl (ValueError, ''Length of values does not match length of index'')
      else if name \<in> set (map fst (columns df))
      then Inr (df\<lparr>columns := map (\<lambda>col. if fst col = name then (name, vals) else col)
                                    (columns df)\<rparr>)
      else Inr (df\<lparr>columns := columns df @ [(name, vals)]\<rparr>))"


subsection \<open>\<^verbatim>\<open>run_extraction\<close>\<close>

text \<open>
  The thread pool is the environment as well. The task of the row at position \<open>t\<close>
  (\<^verbatim>\<open>_extract_pair\<close> on its two reports) talks to the API through its own two views of the
  shared client, \<open>api t CT\<close> and \<open>api t PET\<close>; \<^verbatim>\<open>as_completed\<close> yields the futures in
  some order \<open>order\<close>, a list of positions. The sleeps of the tasks are not part of the
  result. The files written at the end of \<^verbatim>\<open>run_extraction\<close> and the prompts files read
  at its beginning are outside the model: the prompts are arguments.
\<close>

datatype modality = CT | PET

type_synonym llm_api = "nat \<Rightarrow> modality \<Rightarrow> client"

definition extract_pair ::
  "pylib \<Rightarrow> config \<Rightarrow> (modality \<Rightarrow> client) \<Rightarrow> string \<Rightarrow> string \<Rightarrow> string \<Rightarrow> string
     \<Rightarrow> pyexn + pyval \<times> pyval" where
  "extract_pair L cfg cl ct_prompt pet_prompt ct_report pt_report =
     exn_bind (snd (extract_with_retry L cfg (cl CT) ct_prompt ct_report)) (\<lambda>ct_json.
     exn_bind (snd (extract_with_retry L cfg (cl PET) pet_prompt pt_report)) (\<lambda>pet_json.
     Inr (ct_json, pet_json)))"

text \<open>The future submitted for the row at position \<open>t\<close>: what \<^verbatim>\<open>future.result()\<close> returns
  or raises.\<close>

definition future_result ::
  "pylib \<Rightarrow> config \<Rightarrow> llm_api \<Rightarrow> string \<Rightarrow> string \<Rightarrow> frame \<Rightarrow> nat \<Rightarrow> pyexn + pyval \<times> pyval" where
  "future_result L cfg api ct_prompt pet_prompt df t =
     (let row = frame_row df t
      in extract_pair L cfg (api t) ct_prompt pet_prompt
           (py_str L (series_get_default row ''ct_report'' (PStr [])))
           (py_str L (series_get_default row ''pt_report'' (PStr []))))"

text \<open>The body of the loop over \<^verbatim>\<open>as_completed(futures)\<close>: the tuple appended to
  \<^verbatim>\<open>results\<close> for the future of position \<open>t\<close>.\<close>

definition completed :: "frame \<Rightarrow> nat \<Rightarrow> pyexn + pyval \<times> pyval \<Rightarrow> int \<times> pyval \<times> pyval \<times> string" where
  "completed df t res =
     (let idx = index df ! t
      in case res of
           Inr (ct_json, pet_json) \<Rightarrow> (idx, ct_json, pet_json, [])
         | Inl exc \<Rightarrow> (idx, PDict [], PDict [], exn_str exc))"

definition collect_results ::
  "pylib \<Rightarrow> config \<Rightarrow> llm_api \<Rightarrow> string \<Rightarrow> string \<Rightarrow> frame \<Rightarrow> nat list
     \<Rightarrow> (int \<times> pyval \<times> pyval \<times> string) list" where
  "collect_results L cfg api ct_prompt pet_prompt df order =
     map (\<lambda>t. completed df t (future_result L cfg api ct_prompt pet_prompt df t)) order"

text \<open>The components of a tuple of \<^verbatim>\<open>results\<close> after the index label.\<close>

definition result_ct :: "int \<times> pyval \<times> pyval \<times> string \<Rightarrow> pyval" where
  "result_ct r = fst (snd r)"

definition result_pet :: "int \<times> pyval \<times> pyval \<times> string \<Rightarrow> pyval" where
  "result_pet r = fst (snd (snd r))"

definition result_error :: "int \<times> pyval \<times> pyval \<times> string \<Rightarrow> string" where
  "result_error r = snd (snd (snd r))"

fun column_values :: "pylib \<Rightarrow> string \<Rightarrow> pyval list \<Rightarrow> pyexn + pyval list" where
  "column_values L key [] = Inr []"
| "column_values L key (item # items) =
     exn_bind (py_get item key PNone) (\<lambda>v.
     exn_bind (column_values L key items) (\<lambda>vs. Inr (normalize_json_value L v # vs)))"

text \<open>The loop \<^verbatim>\<open>for key in keys: out_df[prefix + key] = [...]\<close>.\<close>

fun flatten_columns ::
  "pylib \<Rightarrow> string \<Rightarrow> string list \<Rightarrow> pyval list \<Rightarrow> frame \<Rightarrow> pyexn + frame" where
  "flatten_columns L pre [] items out_df = Inr out_df"
| "flatten_columns L pre (key # keys) items out_df =
     exn_bind (column_values L key items) (\<lambda>vals.
     exn_bind (set_column out_df (pre @ key) vals) (\<lambda>out_df'.
     flatten_columns L pre keys items out_df'))"

definition api_key_missing :: "config \<Rightarrow> bool" where
  "api_key_missing cfg = (case llm_api_key cfg of None \<Rightarrow> True | Some k \<Rightarrow> k = [])"

definition truncate_rows :: "frame \<Rightarrow> int option \<Rightarrow> frame" where
  "truncate_rows df max_rows =
     (case max_rows of
        None \<Rightarrow> df
      | Some n \<Rightarrow> if n \<noteq> 0 then frame_head df n else df)"

definition run_extraction ::
  "pylib \<Rightarrow> config \<Rightarrow> llm_api \<Rightarrow> nat list \<Rightarrow> frame \<Rightarrow> string \<Rightarrow> string \<Rightarrow> int option
     \<Rightarrow> pyexn + frame" where
  "run_extraction L cfg api order df0 ct_prompt pet_prompt max_rows =
     (if api_key_missing cfg then Inl (RuntimeError, ''OPENAI_API_KEY is not set'')
      else
        let df = truncate_rows df0 max_rows;
            results = collect_results L cfg api ct_prompt pet_prompt df order;
            results_sorted = sort_key fst results;
            ct_jsons = map result_ct results_sorted;
            pet_jsons = map result_pet results_sorted;
            errors = map result_error results_sorted
        in
        exn_bind (set_column df ''ct_json'' (map (\<lambda>x. PStr (json_dumps L x)) ct_jsons))
          (\<lambda>out_df.
        exn_bind (set_column out_df ''pet_json'' (map (\<lambda>x. PStr (json_dumps L x)) pet_jsons))
          (\<lambda>out_df.
        exn_bind (set_column out_df ''extraction_error'' (map PStr errors)) (\<lambda>out_df.
        exn_bind (ordered_keys ct_jsons EXPECTED_CT_KEYS) (\<lambda>ct_keys.
        exn_bind (ordered_keys pet_jsons EXPECTED_PET_KEYS) (\<lambda>pet_keys.
        exn_bind (flatten_columns L ''ct_'' ct_keys ct_jsons out_df) (\<lambda>out_df.
        flatten_columns L ''pet_'' pet_keys pet_jsons out_df)))))))"

text \<open>The completion orders of \<open>n\<close> submitted futures: every future completes once.\<close>

definition completion_order :: "nat \<Rightarrow> nat list \<Rightarrow> bool" where
  "completion_order n order = (mset order = mset [0..<n])"

section \<open>Notions used in the statements\<close>

text \<open>
  The definitions of this section are not translations of source functions: they name what
  the properties below talk about.
\<close>

subsection \<open>Rows and their JSON cells\<close>

text \<open>A lookup with a default, and the value stored under key \<open>k\<close> in the JSON object
  held by the cell \<open>col\<close> of a row (\<open>None\<close> when the key is absent).\<close>

definition value_or :: "pyval option \<Rightarrow> pyval \<Rightarrow> pyval" where
  "value_or field dflt = (case field of None \<Rightarrow> dflt | Some v \<Rightarrow> v)"

definition json_field :: "pylib \<Rightarrow> series \<Rightarrow> string \<Rightarrow> string \<Rightarrow> pyval option" where
  "json_field L row col k =
     (case parse_json_cell L (series_get row col) of PDict kvs \<Rightarrow> map_of kvs k | _ \<Rightarrow> None)"

text \<open>
  An empty findings field: the key is absent, or its value is \<^verbatim>\<open>None\<close>, a native empty
  list, or a string that parses to an empty list. Everything else, the empty string
  included, is a non-empty field.
\<close>

definition findings_empty :: "pylib \<Rightarrow> pyval option \<Rightarrow> bool" where
  "findings_empty L field =
     (case field of
        None \<Rightarrow> True
      | Some PNone \<Rightarrow> True
      | Some (PList xs) \<Rightarrow> xs = []
      | Some (PStr s) \<Rightarrow> json_loads L s = Inr (PList [])
      | Some _ \<Rightarrow> False)"





subsection \<open>Retries\<close>


subsection \<open>Extraction results and columns\<close>

fun is_dict :: "pyval \<Rightarrow> bool" where
  "is_dict (PDict kvs) = True"
| "is_dict _ = False"

fun keys_of :: "pyval \<Rightarrow> string list" where
  "keys_of (PDict kvs) = map fst kvs"
| "keys_of _ = []"

fun field_of :: "pyval \<Rightarrow> string \<Rightarrow> pyval" where
  "field_of (PDict kvs) k = (case map_of kvs k of None \<Rightarrow> PNone | Some v \<Rightarrow> v)"
| "field_of _ k = PNone"

text \<open>The flattened column of a key: one normalised value per extraction result, the
  empty string where the result has no such key.\<close>

definition flat_column :: "pylib \<Rightarrow> string \<Rightarrow> pyval list \<Rightarrow> pyval list" where
  "flat_column L key items = map (\<lambda>item. normalize_json_value L (field_of item key)) items"

text \<open>The keys met in at least one result, and their order in the output: the expected
  keys that were met, in the order of the expected list, then the other keys, sorted.\<close>

definition discovered :: "pyval list \<Rightarrow> string set" where
  "discovered items = (\<Union>item \<in> set items. set (keys_of item))"

definition key_order :: "pyval list \<Rightarrow> string list \<Rightarrow> string list" where
  "key_order items expected =
     [k \<leftarrow> expected. k \<in> discovered items] @ sorted_list_of_set (discovered items - set expected)"

text \<open>The list \<^verbatim>\<open>results_sorted\<close> of a run, and the tuple that the row at position \<open>t\<close>
  contributes to \<^verbatim>\<open>results\<close>.\<close>

definition sorted_results ::
  "pylib \<Rightarrow> config \<Rightarrow> llm_api \<Rightarrow> string \<Rightarrow> string \<Rightarrow> frame \<Rightarrow> nat list
     \<Rightarrow> (int \<times> pyval \<times> pyval \<times> string) list" where
  "sorted_results L cfg api ct_prompt pet_prompt df order =
     sort_key fst (collect_results L cfg api ct_prompt pet_prompt df order)"

definition row_result ::
  "pylib \<Rightarrow> config \<Rightarrow> llm_api \<Rightarrow> string \<Rightarrow> string \<Rightarrow> frame \<Rightarrow> nat
     \<Rightarrow> int \<times> pyval \<times> pyval \<times> string" where
  "row_result L cfg api ct_prompt pet_prompt df t =
     completed df t (future_result L cfg api ct_prompt pet_prompt df t)"

text \<open>The column names of the table once \<^verbatim>\<open>ct_json\<close>, \<^verbatim>\<open>pet_json\<close> and
  \<^verbatim>\<open>extraction_error\<close> are assigned: a name that the input has already keeps its
  place.\<close>

definition base_names :: "frame \<Rightarrow> string list" where
  "base_names df =
     map fst (columns df) @
     [n \<leftarrow> [''ct_json'', ''pet_json'', ''extraction_error'']. n \<notin> set (map fst (columns df))]"

text \<open>Every task that returns, returns two JSON objects (the API is asked for
  \<^verbatim>\<open>json_object\<close> responses, and \<^verbatim>\<open>_extract_with_retry\<close> is declared to return a dict).\<close>

definition objects_only ::
  "pylib \<Rightarrow> config \<Rightarrow> llm_api \<Rightarrow> string \<Rightarrow> string \<Rightarrow> frame \<Rightarrow> bool" where
  "objects_only L cfg api ct_prompt pet_prompt df =
     list_all (\<lambda>t. case future_result L cfg api ct_prompt pet_prompt df t of
                     Inl exc \<Rightarrow> True
                   | Inr (ct_json, pet_json) \<Rightarrow> is_dict ct_json \<and> is_dict pet_json)
       [0..<length (index df)]"

section \<open>Concrete inputs\<close>

text \<open>
  To evaluate the model at concrete inputs the library parameters are instantiated with a
  finite fragment of the Python functions: \<^verbatim>\<open>json.loads\<close> on the texts listed in
  \<open>loads_table\<close> and on texts that are not JSON (such as the empty string), \<^verbatim>\<open>json.dumps\<close>
  on the values listed in \<open>dumps_table\<close>, and \<^verbatim>\<open>str\<close> on \<^verbatim>\<open>None\<close>, the bools and
  \<^verbatim>\<open>nan\<close>. The concrete inputs below stay inside this fragment.
\<close>

definition ct_doc :: pyval where
  "ct_doc = PDict [(''CT_Regions'', PList [PStr ''Chest'', PStr ''Abdomen'']),
                   (''CT_Contrast_Agent'', PStr ''None''),
                   (''Lung_Nodules'', PList [PDict [(''size_mm'', PStr ''8'')]])]"

definition ct_text :: string where
  \<open>ct_text = ''{"CT_Regions": ["Chest", "Abdomen"], "CT_Contrast_Agent": "None", "Lung_Nodules": [{"size_mm": "8"}]}''\<close>

definition pet_doc :: pyval where
  "pet_doc = PDict [(''Clinical_Reason'', PStr ''Indeterminate Pulmonary Nodule''),
                    (''Primary_Diagnosis'', PStr ''No Cancer''),
                    (''Lymph_Nodes_Hypermetabolic_Regions'', PList []),
                    (''Other_Hypermetabolic_Regions'', PList [])]"

definition pet_text :: string where
  \<open>pet_text = ''{"Clinical_Reason": "Indeterminate Pulmonary Nodule", "Primary_Diagnosis": "No Cancer", "Lymph_Nodes_Hypermetabolic_Regions": [], "Other_Hypermetabolic_Regions": []}''\<close>

definition loads_table :: "(string \<times> pyval) list" where
  "loads_table = [(ct_text, ct_doc), (pet_text, pet_doc), (''{}'', PDict []), (''[]'', PList [])]"

definition dumps_table :: "(pyval \<times> string) list" where
  \<open>dumps_table =
     [(ct_doc, ct_text), (pet_doc, pet_text), (PDict [], ''{}''), (PList [], ''[]''),
      (PList [PStr ''Chest'', PStr ''Abdomen''], ''["Chest", "Abdomen"]''),
      (PList [PDict [(''size_mm'', PStr ''8'')]], ''[{"size_mm": "8"}]'')]\<close>

definition lib0 :: pylib where
  "lib0 = \<lparr>
     json_loads = (\<lambda>s. case map_of loads_table s of
                          Some v \<Rightarrow> Inr v
                        | None \<Rightarrow> Inl ''Expecting value: line 1 column 1 (char 0)''),
     json_dumps = (\<lambda>v. case map_of dumps_table v of Some s \<Rightarrow> s | None \<Rightarrow> ''null''),
     py_repr = (\<lambda>v. case v of PBool True \<Rightarrow> ''True'' | PBool False \<Rightarrow> ''False''
                              | PNaN \<Rightarrow> ''nan'' | _ \<Rightarrow> ''None'') \<rparr>"

text \<open>A row of an extracted table that passes every rule, as a function of its
  \<^verbatim>\<open>extraction_error\<close> cell.\<close>

definition good_row :: "pyval \<Rightarrow> series" where
  "good_row err = [''patient_id'' \<mapsto> PStr ''P1'', ''ct_json'' \<mapsto> PStr ct_text,
                   ''pet_json'' \<mapsto> PStr pet_text, ''extraction_error'' \<mapsto> err]"

text \<open>A row without extraction error, as a function of its two JSON cells.\<close>

definition row_with :: "pyval \<Rightarrow> pyval \<Rightarrow> series" where
  "row_with ct pet = [''patient_id'' \<mapsto> PStr ''P1'', ''ct_json'' \<mapsto> ct,
                      ''pet_json'' \<mapsto> pet, ''extraction_error'' \<mapsto> PStr []]"

text \<open>PET extractions whose lymph-node findings are the empty string, and whose findings
  are a string that parses to the empty list and a list of one finding.\<close>

definition pet_empty_string :: pyval where
  "pet_empty_string =
     PDict [(''Clinical_Reason'', PStr ''Indeterminate Pulmonary Nodule''),
            (''Primary_Diagnosis'', PStr ''No Cancer''),
            (''Lymph_Nodes_Hypermetabolic_Regions'', PStr []),
            (''Other_Hypermetabolic_Regions'', PList [])]"

definition pet_findings :: pyval where
  "pet_findings =
     PDict [(''Clinical_Reason'', PStr ''Indeterminate Pulmonary Nodule''),
            (''Primary_Diagnosis'', PStr ''No Cancer''),
            (''Lymph_Nodes_Hypermetabolic_Regions'', PStr ''[]''),
            (''Other_Hypermetabolic_Regions'', PList [PDict [(''size_mm'', PStr ''5'')]])]"

text \<open>A configuration with the default number of retries; a client that fails twice and
  then answers, and one that always fails.\<close>

definition cfg0 :: config where
  "cfg0 = \<lparr> llm_api_key = Some ''sk-test'', llm_retries = None, llm_concurrency = None \<rparr>"



text \<open>A table of two candidate pairs with the default index, and an API that answers the
  task of the first row and fails every attempt of the second.\<close>

definition df2 :: frame where
  "df2 = \<lparr> index = [0, 1],
           columns = [(''patient_id'', [PStr ''P1'', PStr ''P2'']),
                      (''ct_report'', [PStr ''chest ct'', PStr ''abdomen ct'']),
                      (''pt_report'', [PStr ''pet a'', PStr ''pet b''])] \<rparr>"

definition api2 :: llm_api where
  "api2 t m prompt report attempt =
     (if t = 0 then (case m of CT \<Rightarrow> Inr ct_text | PET \<Rightarrow> Inr pet_text)
      else Inl (APIError, ''Connection error.''))"

section \<open>Properties of the selection\<close>

lemma py_get_dict: "py_get (PDict kvs) k d = Inr (value_or (map_of kvs k) d)"
  by (simp add: py_get_def value_or_def)

lemma exn_bind_Inr [simp]: "exn_bind (Inr x) f = f x"
  by (simp add: exn_bind_def)

lemma exn_bind_Inl [simp]: "exn_bind (Inl e) f = Inl e"
  by (simp add: exn_bind_def)

lemma truthy_not_empty_list: "py_truthy v \<Longrightarrow> v \<noteq> PList []"
  by auto

lemma evaluate_row_result:
  assumes err: "\<not> py_truthy (series_get row ''extraction_error'')"
    and ct: "parse_json_cell L (series_get row ''ct_json'') = PDict ct"
    and pet: "parse_json_cell L (series_get row ''pet_json'') = PDict pet"
    and chest: "contains_chest (value_or (map_of ct ''CT_Regions'') (PList [])) = Inr chest"
    and rok: "in_str_set (value_or (map_of pet ''Clinical_Reason'') (PStr [])) ALLOWED_REASONS = Inr reason_ok"
    and dok: "in_str_set (value_or (map_of pet ''Primary_Diagnosis'') (PStr [])) ALLOWED_DIAGNOSES = Inr dx_ok"
  shows "evaluate_row L row =
     (let reasons =
        (if chest then [] else [''ct_not_chest'']) @
        (if lower (strip (py_str L (value_or (map_of ct ''CT_Contrast_Agent'') (PStr [])))) = ''none''
         then [] else [''ct_contrast_present'']) @
        (if py_truthy (value_or (map_of ct ''Lung_Nodules'') (PList [])) then [] else [''no_lung_nodules'']) @
        (if reason_ok then [] else [''pet_reason_not_indeterminate_nodule'']) @
        (if dx_ok then [] else [''pet_primary_dx_not_allowed'']) @
        (if list_empty L (value_or (map_of pet ''Lymph_Nodes_Hypermetabolic_Regions'') (PList []))
         then [] else [''pet_lymph_hypermetabolic'']) @
        (if list_empty L (value_or (map_of pet ''Other_Hypermetabolic_Regions'') (PList []))
         then [] else [''pet_other_hypermetabolic''])
      in Inr (reasons = [], reasons))"
  using err
  by (auto simp add: evaluate_row_def ct pet py_get_dict chest rok dok Let_def
        dest: truthy_not_empty_list)

lemma exn_bind_eq_Inr: "exn_bind m f = Inr y \<longleftrightarrow> (\<exists>x. m = Inr x \<and> f x = Inr y)"
  by (cases m) simp_all

lemma py_get_eq_Inr: "py_get d k dflt = Inr v \<Longrightarrow> \<exists>kvs. d = PDict kvs"
  by (cases d) (simp_all add: py_get_def)

lemma evaluate_row_InrD:
  assumes err: "\<not> py_truthy (series_get row ''extraction_error'')"
    and res: "evaluate_row L row = Inr r"
  shows "\<exists>ct pet chest reason_ok dx_ok.
     parse_json_cell L (series_get row ''ct_json'') = PDict ct \<and>
     parse_json_cell L (series_get row ''pet_json'') = PDict pet \<and>
     contains_chest (value_or (map_of ct ''CT_Regions'') (PList [])) = Inr chest \<and>
     in_str_set (value_or (map_of pet ''Clinical_Reason'') (PStr [])) ALLOWED_REASONS = Inr reason_ok \<and>
     in_str_set (value_or (map_of pet ''Primary_Diagnosis'') (PStr [])) ALLOWED_DIAGNOSES = Inr dx_ok"
proof -
  let ?ct = "parse_json_cell L (series_get row ''ct_json'')"
  let ?pet = "parse_json_cell L (series_get row ''pet_json'')"
  from err res obtain ct where ct: "?ct = PDict ct"
    by (auto simp add: evaluate_row_def Let_def exn_bind_eq_Inr dest: py_get_eq_Inr)
  from err res ct obtain chest where
    chest: "contains_chest (value_or (map_of ct ''CT_Regions'') (PList [])) = Inr chest"
    by (auto simp add: evaluate_row_def Let_def exn_bind_eq_Inr py_get_dict)
  from err res ct chest obtain pet where pet: "?pet = PDict pet"
    by (auto simp add: evaluate_row_def Let_def exn_bind_eq_Inr py_get_dict dest: py_get_eq_Inr)
  from err res ct chest pet obtain reason_ok where
    rok: "in_str_set (value_or (map_of pet ''Clinical_Reason'') (PStr [])) ALLOWED_REASONS = Inr reason_ok"
    by (auto simp add: evaluate_row_def Let_def exn_bind_eq_Inr py_get_dict)
  from err res ct chest pet rok obtain dx_ok where
    "in_str_set (value_or (map_of pet ''Primary_Diagnosis'') (PStr [])) ALLOWED_DIAGNOSES = Inr dx_ok"
    by (auto simp add: evaluate_row_def Let_def exn_bind_eq_Inr py_get_dict)
  with ct chest pet rok show ?thesis by blast
qed

lemma in_set_if_single: "x \<in> set (if c then [] else [y]) \<longleftrightarrow> \<not> c \<and> x = y"
  by simp

lemma list_empty_findings:
  "list_empty L (value_or field (PList [])) = findings_empty L field"
  by (auto simp add: list_empty_def findings_empty_def value_or_def
        split: option.splits pyval.splits sum.splits)

text \<open>
  C3. A row whose \<^verbatim>\<open>extraction_error\<close> value is non-empty (any value that Python takes as
  true, in particular every non-empty string) is excluded with the single reason
  \<^verbatim>\<open>extraction_error\<close>, whatever its other cells hold: no other rule runs, so no other
  reason appears and nothing is raised.
\<close>

theorem extraction_error_only:
  assumes "py_truthy (series_get row ''extraction_error'')"
  shows "evaluate_row L row = Inr (False, [''extraction_error''])"
  using assms by (simp add: evaluate_row_def)

theorem extraction_error_only_witness:
  "py_truthy (series_get (good_row (PStr ''timeout'')) ''extraction_error'') \<and>
   evaluate_row lib0 (good_row (PStr ''timeout'')) = Inr (False, [''extraction_error''])"
proof -
  have a: "py_truthy (series_get (good_row (PStr ''timeout'')) ''extraction_error'')"
    by (simp add: good_row_def series_get_def)
  show ?thesis
    using a extraction_error_only [of "good_row (PStr ''timeout'')" lib0] by simp
qed

text \<open>
  C1. For a row whose \<^verbatim>\<open>extraction_error\<close> cell is the empty string, \<^verbatim>\<open>None\<close> or missing,
  lemma \<open>evaluate_row_result\<close> above gives the reasons as the concatenation of what each of
  the seven rules contributes on its own, and the verdict as the emptiness of that list.
  An empty cell of a table read back from CSV (the \<^verbatim>\<open>select\<close> command reads
  \<^verbatim>\<open>extracted_pairs.csv\<close> with \<^verbatim>\<open>pd.read_csv\<close>) is the float \<^verbatim>\<open>nan\<close>, which is true in
  Python: the row that passes every rule when the cell is the empty string is excluded as
  an extraction error when the cell is \<^verbatim>\<open>nan\<close>, and none of its rules is evaluated.
\<close>

theorem nan_cell_read_as_error:
  "evaluate_row lib0 (good_row (PStr [])) = Inr (True, []) \<and>
   evaluate_row lib0 (good_row PNaN) = Inr (False, [''extraction_error''])"
proof -
  have a: "evaluate_row lib0 (good_row (PStr [])) = Inr (True, [])"
    by code_simp
  have b: "evaluate_row lib0 (good_row PNaN) = Inr (False, [''extraction_error''])"
    by code_simp
  from a b show ?thesis by simp
qed

theorem nan_cell_read_as_error_witness:
  "evaluate_row lib0 (good_row PNaN) \<noteq> evaluate_row lib0 (good_row (PStr []))"
  using nan_cell_read_as_error by simp

text \<open>
  C2, as stated, fails where the findings field is the empty string: the claim counts it as
  empty, but \<^verbatim>\<open>json.loads("")\<close> raises, \<^verbatim>\<open>_list_empty\<close> returns \<^verbatim>\<open>False\<close> and the rule fails.
\<close>

theorem empty_string_findings_counterexample:
  "json_field lib0 (row_with (PStr ct_text) pet_empty_string) ''pet_json''
     ''Lymph_Nodes_Hypermetabolic_Regions'' = Some (PStr []) \<and>
   evaluate_row lib0 (row_with (PStr ct_text) pet_empty_string) =
     Inr (False, [''pet_lymph_hypermetabolic''])"
proof -
  have a: "json_field lib0 (row_with (PStr ct_text) pet_empty_string) ''pet_json''
     ''Lymph_Nodes_Hypermetabolic_Regions'' = Some (PStr [])"
    by code_simp
  have b: "evaluate_row lib0 (row_with (PStr ct_text) pet_empty_string) =
     Inr (False, [''pet_lymph_hypermetabolic''])"
    by code_simp
  from a b show ?thesis by simp
qed

text \<open>
  C2, amended. For every row without extraction error on which \<^verbatim>\<open>evaluate_row\<close> returns,
  the lymph-node rule and the other-findings rule each append no reason exactly when the
  field is empty in the sense of \<open>findings_empty\<close>: absent, \<^verbatim>\<open>None\<close>, a native empty list,
  or a string that parses to an empty list. Any other value, the empty string and every
  string that fails to parse included, appends the reason of its rule.
\<close>

theorem hypermetabolic_rules:
  assumes err: "\<not> py_truthy (series_get row ''extraction_error'')"
    and res: "evaluate_row L row = Inr (verdict, reasons)"
  shows "(''pet_lymph_hypermetabolic'' \<notin> set reasons \<longleftrightarrow>
            findings_empty L (json_field L row ''pet_json'' ''Lymph_Nodes_Hypermetabolic_Regions'')) \<and>
         (''pet_other_hypermetabolic'' \<notin> set reasons \<longleftrightarrow>
            findings_empty L (json_field L row ''pet_json'' ''Other_Hypermetabolic_Regions''))"
proof -
  from evaluate_row_InrD [OF err res] obtain ct pet chest reason_ok dx_ok where
    ct: "parse_json_cell L (series_get row ''ct_json'') = PDict ct" and
    pet: "parse_json_cell L (series_get row ''pet_json'') = PDict pet" and
    chest: "contains_chest (value_or (map_of ct ''CT_Regions'') (PList [])) = Inr chest" and
    rok: "in_str_set (value_or (map_of pet ''Clinical_Reason'') (PStr [])) ALLOWED_REASONS = Inr reason_ok" and
    dok: "in_str_set (value_or (map_of pet ''Primary_Diagnosis'') (PStr [])) ALLOWED_DIAGNOSES = Inr dx_ok"
    by blast
  from res evaluate_row_result [OF err ct pet chest rok dok]
  have reasons: "reasons =
        (if chest then [] else [''ct_not_chest'']) @
        (if lower (strip (py_str L (value_or (map_of ct ''CT_Contrast_Agent'') (PStr [])))) = ''none''
         then [] else [''ct_contrast_present'']) @
        (if py_truthy (value_or (map_of ct ''Lung_Nodules'') (PList [])) then [] else [''no_lung_nodules'']) @
        (if reason_ok then [] else [''pet_reason_not_indeterminate_nodule'']) @
        (if dx_ok then [] else [''pet_primary_dx_not_allowed'']) @
        (if list_empty L (value_or (map_of pet ''Lymph_Nodes_Hypermetabolic_Regions'') (PList []))
         then [] else [''pet_lymph_hypermetabolic'']) @
        (if list_empty L (value_or (map_of pet ''Other_Hypermetabolic_Regions'') (PList []))
         then [] else [''pet_other_hypermetabolic''])"
    by (simp add: Let_def)
  show ?thesis
    unfolding reasons
    by (simp add: json_field_def pet list_empty_findings in_set_if_single)
qed

theorem hypermetabolic_rules_witness:
  "\<not> py_truthy (series_get (row_with (PStr ct_text) pet_findings) ''extraction_error'') \<and>
   evaluate_row lib0 (row_with (PStr ct_text) pet_findings) =
     Inr (False, [''pet_other_hypermetabolic'']) \<and>
   findings_empty lib0 (json_field lib0 (row_with (PStr ct_text) pet_findings) ''pet_json''
     ''Lymph_Nodes_Hypermetabolic_Regions'') \<and>
   \<not> findings_empty lib0 (json_field lib0 (row_with (PStr ct_text) pet_findings) ''pet_json''
     ''Other_Hypermetabolic_Regions'')"
proof -
  have a: "\<not> py_truthy (series_get (row_with (PStr ct_text) pet_findings) ''extraction_error'')"
    by (simp add: row_with_def series_get_def)
  have b: "evaluate_row lib0 (row_with (PStr ct_text) pet_findings) =
     Inr (False, [''pet_other_hypermetabolic''])"
    by code_simp
  from hypermetabolic_rules [OF a b] a b show ?thesis by simp
qed








section \<open>Properties of the LLM calls\<close>

lemma find_from_takeWhile:
  "find_from c s i =
     (if c \<in> set s then i + int (length (takeWhile (\<lambda>x. x \<noteq> c) s)) else -1)"
  by (induction s arbitrary: i) auto

lemma takeWhile_upto_first:
  "c \<notin> set pre \<Longrightarrow> takeWhile (\<lambda>x. x \<noteq> c) (pre @ c # rest) = pre"
  by (induction pre) auto

lemma find_char_first:
  assumes "c \<notin> set pre"
  shows "find_char (pre @ c # rest) c = int (length pre)"
  using assms by (simp add: find_char_def find_from_takeWhile takeWhile_upto_first)

lemma rfind_char_last:
  assumes "c \<notin> set post"
  shows "rfind_char (pre @ c # post) c = int (length pre)"
proof -
  have "takeWhile (\<lambda>x. x \<noteq> c) (rev post @ c # rev pre) = rev post"
    using assms by (simp add: takeWhile_upto_first)
  then show ?thesis
    by (simp add: rfind_char_def find_from_takeWhile Let_def)
qed

lemma slice_braces:
  "slice (pre @ a # mid @ b # post) (int (length pre)) (int (length (pre @ a # mid)) + 1)
     = a # mid @ [b]"
  by (simp add: slice_def nat_add_distrib)

lemma find_char_split:
  assumes "find_char s c \<noteq> -1"
  shows "\<exists>pre rest. s = pre @ c # rest \<and> c \<notin> set pre \<and> find_char s c = int (length pre)"
proof -
  from assms have mem: "c \<in> set s"
    by (simp add: find_char_def find_from_takeWhile split: if_splits)
  then obtain pre rest where "s = pre @ c # rest" "c \<notin> set pre"
    by (meson split_list_first)
  then show ?thesis using find_char_first by blast
qed

lemma rfind_char_split:
  assumes "rfind_char s c \<noteq> -1"
  shows "\<exists>pre post. s = pre @ c # post \<and> c \<notin> set post \<and> rfind_char s c = int (length pre)"
proof -
  from assms have mem: "c \<in> set s"
    by (simp add: rfind_char_def find_from_takeWhile Let_def split: if_splits)
  then obtain pre post where "s = pre @ c # post" "c \<notin> set post"
    by (meson split_list_last)
  then show ?thesis using rfind_char_last by blast
qed

lemma braces_split:
  assumes s: "find_char t a \<noteq> -1" and e: "rfind_char t b \<noteq> -1"
    and lt: "find_char t a < rfind_char t b"
  shows "\<exists>pre mid post. t = pre @ a # mid @ b # post \<and> a \<notin> set pre \<and> b \<notin> set post"
proof -
  from find_char_split [OF s] obtain pre rest where
    t1: "t = pre @ a # rest" and a: "a \<notin> set pre" and fa: "find_char t a = int (length pre)"
    by blast
  from rfind_char_split [OF e] obtain pre' post where
    t2: "t = pre' @ b # post" and b: "b \<notin> set post" and fb: "rfind_char t b = int (length pre')"
    by blast
  from lt fa fb have len: "length pre < length pre'" by simp
  from t1 t2 have eq: "pre @ a # rest = pre' @ b # post" by simp
  then have "take (length pre') (pre @ a # rest) = pre'" by simp
  with len have "pre' = pre @ a # take (length pre' - Suc (length pre)) rest"
    by (simp add: take_Cons')
  then obtain mid where pre': "pre' = pre @ a # mid" ..
  with t2 a b show ?thesis by auto
qed

text \<open>
  C8. \<^verbatim>\<open>_parse_json\<close> returns the strict parse of the stripped response when that succeeds.
  When it fails and the stripped text has a first \<open>{\<close> before a last \<open>}\<close>, the result is
  that of parsing the text from the one to the other: the parsed value, or the
  \<^verbatim>\<open>JSONDecodeError\<close> of this second parse. When it fails and the text has no such part,
  the first \<^verbatim>\<open>JSONDecodeError\<close> propagates.
\<close>

theorem parse_json_cases:
  "(json_loads L (strip text) = Inr v \<longrightarrow> parse_json L text = Inr v) \<and>
   (json_loads L (strip text) = Inl m \<and>
    strip text = pre @ CHR ''{'' # mid @ CHR ''}'' # post \<and>
    CHR ''{'' \<notin> set pre \<and> CHR ''}'' \<notin> set post \<longrightarrow>
      parse_json L text =
        (case json_loads L (CHR ''{'' # mid @ [CHR ''}'']) of
           Inr w \<Rightarrow> Inr w
         | Inl m' \<Rightarrow> Inl (JSONDecodeError, m'))) \<and>
   (json_loads L (strip text) = Inl m \<and>
    (\<forall>pre mid post. strip text \<noteq> pre @ CHR ''{'' # mid @ CHR ''}'' # post) \<longrightarrow>
      parse_json L text = Inl (JSONDecodeError, m))"
proof (intro conjI impI)
  assume "json_loads L (strip text) = Inr v"
  then show "parse_json L text = Inr v" by (simp add: parse_json_def)
next
  assume h: "json_loads L (strip text) = Inl m \<and>
    strip text = pre @ CHR ''{'' # mid @ CHR ''}'' # post \<and>
    CHR ''{'' \<notin> set pre \<and> CHR ''}'' \<notin> set post"
  let ?t = "pre @ CHR ''{'' # mid @ CHR ''}'' # post"
  from h have st: "find_char ?t (CHR ''{'') = int (length pre)"
    by (simp add: find_char_first)
  from h have "rfind_char ((pre @ CHR ''{'' # mid) @ CHR ''}'' # post) (CHR ''}'')
      = int (length (pre @ CHR ''{'' # mid))"
    by (intro rfind_char_last) simp
  then have en: "rfind_char ?t (CHR ''}'') = int (length (pre @ CHR ''{'' # mid))"
    by simp
  have sl: "slice ?t (int (length pre)) (int (length (pre @ CHR ''{'' # mid)) + 1)
      = CHR ''{'' # mid @ [CHR ''}'']"
    by (rule slice_braces)
  from h have jl: "json_loads L (strip text) = Inl m" and tt: "strip text = ?t"
    by blast+
  have "parse_json L text =
     (if find_char (strip text) (CHR ''{'') \<noteq> -1 \<and> rfind_char (strip text) (CHR ''}'') \<noteq> -1
         \<and> rfind_char (strip text) (CHR ''}'') > find_char (strip text) (CHR ''{'')
      then (case json_loads L (slice (strip text) (find_char (strip text) (CHR ''{''))
                                 (rfind_char (strip text) (CHR ''}'') + 1)) of
              Inr v \<Rightarrow> Inr v
            | Inl m' \<Rightarrow> Inl (JSONDecodeError, m'))
      else Inl (JSONDecodeError, m))"
    by (simp add: parse_json_def Let_def jl)
  also have "\<dots> = (case json_loads L (CHR ''{'' # mid @ [CHR ''}'']) of
           Inr w \<Rightarrow> Inr w
         | Inl m' \<Rightarrow> Inl (JSONDecodeError, m'))"
    unfolding tt st en sl by simp
  finally show "parse_json L text =
        (case json_loads L (CHR ''{'' # mid @ [CHR ''}'']) of
           Inr w \<Rightarrow> Inr w
         | Inl m' \<Rightarrow> Inl (JSONDecodeError, m'))" .
next
  assume h: "json_loads L (strip text) = Inl m \<and>
    (\<forall>pre mid post. strip text \<noteq> pre @ CHR ''{'' # mid @ CHR ''}'' # post)"
  have "\<not> (find_char (strip text) (CHR ''{'') \<noteq> -1 \<and> rfind_char (strip text) (CHR ''}'') \<noteq> -1
            \<and> rfind_char (strip text) (CHR ''}'') > find_char (strip text) (CHR ''{''))"
    using h braces_split [of "strip text" "CHR ''{''" "CHR ''}''"] by blast
  with h show "parse_json L text = Inl (JSONDecodeError, m)"
    by (auto simp add: parse_json_def Let_def)
qed

theorem parse_json_cases_witness:
  "json_loads lib0 (strip '' {} '') = Inr (PDict []) \<and>
   parse_json lib0 '' {} '' = Inr (PDict []) \<and>
   json_loads lib0 (strip ''x {} y'') = Inl ''Expecting value: line 1 column 1 (char 0)'' \<and>
   strip ''x {} y'' = ''x '' @ CHR ''{'' # [] @ CHR ''}'' # '' y'' \<and>
   CHR ''{'' \<notin> set ''x '' \<and> CHR ''}'' \<notin> set '' y'' \<and>
   parse_json lib0 ''x {} y'' = Inr (PDict []) \<and>
   json_loads lib0 (strip ''n.a.'') = Inl ''Expecting value: line 1 column 1 (char 0)'' \<and>
   (\<forall>pre mid post. strip ''n.a.'' \<noteq> pre @ CHR ''{'' # mid @ CHR ''}'' # post) \<and>
   parse_json lib0 ''n.a.'' = Inl (JSONDecodeError, ''Expecting value: line 1 column 1 (char 0)'')"
proof -
  let ?m = "''Expecting value: line 1 column 1 (char 0)''"
  have a: "json_loads lib0 (strip '' {} '') = Inr (PDict [])" by code_simp
  have b1: "json_loads lib0 (strip ''x {} y'') = Inl ?m" by code_simp
  have b2: "strip ''x {} y'' = ''x '' @ CHR ''{'' # [] @ CHR ''}'' # '' y''" by code_simp
  have b3: "CHR ''{'' \<notin> set ''x ''" and b4: "CHR ''}'' \<notin> set '' y''" by simp_all
  have b5: "json_loads lib0 (CHR ''{'' # [] @ [CHR ''}'']) = Inr (PDict [])" by code_simp
  have c1: "json_loads lib0 (strip ''n.a.'') = Inl ?m" by code_simp
  have s: "strip ''n.a.'' = ''n.a.''" by code_simp
  have c2: "\<forall>pre mid post. strip ''n.a.'' \<noteq> pre @ CHR ''{'' # mid @ CHR ''}'' # post"
  proof (intro allI notI)
    fix pre mid post
    assume "strip ''n.a.'' = pre @ CHR ''{'' # mid @ CHR ''}'' # post"
    then have "CHR ''{'' \<in> set (strip ''n.a.'')" by simp
    then show False unfolding s by simp
  qed
  have r1: "parse_json lib0 '' {} '' = Inr (PDict [])"
    using parse_json_cases [of lib0 "'' {} ''" "PDict []"] a by blast
  have r2: "parse_json lib0 ''x {} y'' = Inr (PDict [])"
    using parse_json_cases [of lib0 "''x {} y''" _ ?m "''x ''" "[]" "'' y''"] b1 b2 b3 b4 b5
    by simp
  have r3: "parse_json lib0 ''n.a.'' = Inl (JSONDecodeError, ?m)"
    using parse_json_cases [of lib0 "''n.a.''" _ ?m] c1 c2 by blast
  from a b1 b2 b3 b4 c1 c2 r1 r2 r3 show ?thesis by blast
qed




section \<open>Properties of the extraction\<close>

subsection \<open>set_column\<close>

lemma set_column_Inr_iff:
  "(\<exists>df'. set_column df name vals = Inr df') \<longleftrightarrow> length vals = length (index df)"
  by (auto simp add: set_column_def)

lemma set_column_ok:
  assumes "length vals = length (index df)"
  shows "\<exists>df'. set_column df name vals = Inr df'"
  using assms by (simp add: set_column_def)

lemma set_column_index:
  "set_column df name vals = Inr df' \<Longrightarrow> index df' = index df"
  by (auto simp add: set_column_def split: if_splits)

lemma set_column_length:
  "set_column df name vals = Inr df' \<Longrightarrow> length vals = length (index df)"
  by (auto simp add: set_column_def split: if_splits)

lemma map_of_replace_other:
  "x \<noteq> name \<Longrightarrow>
   map_of (map (\<lambda>col. if fst col = name then (name, vals) else col) cols) x = map_of cols x"
  by (induction cols) auto

lemma map_of_replace_same:
  "name \<in> set (map fst cols) \<Longrightarrow>
   map_of (map (\<lambda>col. if fst col = name then (name, vals) else col) cols) name = Some vals"
  by (induction cols) auto

lemma set_column_map_of:
  assumes "set_column df name vals = Inr df'"
  shows "map_of (columns df') = (map_of (columns df))(name \<mapsto> vals)"
proof (cases "name \<in> set (map fst (columns df))")
  case True
  with assms have c: "columns df' = map (\<lambda>col. if fst col = name then (name, vals) else col) (columns df)"
    by (auto simp add: set_column_def split: if_splits)
  show ?thesis
  proof
    fix x
    show "map_of (columns df') x = ((map_of (columns df))(name \<mapsto> vals)) x"
      using True map_of_replace_other [of x name vals "columns df"]
        map_of_replace_same [of name "columns df" vals]
      unfolding c by (cases "x = name") simp_all
  qed
next
  case False
  with assms have c: "columns df' = columns df @ [(name, vals)]"
    by (auto simp add: set_column_def split: if_splits)
  from False have none: "map_of (columns df) name = None"
    by (simp add: map_of_eq_None_iff)
  show ?thesis
  proof
    fix x
    show "map_of (columns df') x = ((map_of (columns df))(name \<mapsto> vals)) x"
      unfolding c using none by (cases "x = name") (simp_all add: map_add_def split: option.splits)
  qed
qed

lemma map_fst_replace:
  "map fst (map (\<lambda>col. if fst col = name then (name, vals) else col) cols) = map fst cols"
  by (induction cols) auto

lemma set_column_names:
  "set_column df name vals = Inr df' \<Longrightarrow>
   map fst (columns df') = map fst (columns df) @ [n \<leftarrow> [name]. n \<notin> set (map fst (columns df))]"
  by (auto simp add: set_column_def map_fst_replace split: if_splits)

subsection \<open>column_values\<close>

lemma py_get_field: "is_dict item \<Longrightarrow> py_get item key PNone = Inr (field_of item key)"
  by (cases item) (simp_all add: py_get_def)

lemma py_get_Inr_dict: "py_get item key d = Inr v \<Longrightarrow> is_dict item"
  by (cases item) (simp_all add: py_get_def)

lemma column_values_ok:
  "list_all is_dict items \<Longrightarrow> column_values L key items = Inr (flat_column L key items)"
  by (induction items) (simp_all add: flat_column_def py_get_field)

lemma column_values_Inr:
  "column_values L key items = Inr vals \<Longrightarrow> list_all is_dict items \<and> vals = flat_column L key items"
proof (induction items arbitrary: vals)
  case Nil
  then show ?case by (simp add: flat_column_def)
next
  case (Cons item items)
  from Cons.prems obtain v vs where v: "py_get item key PNone = Inr v"
    and vs: "column_values L key items = Inr vs" and vals: "vals = normalize_json_value L v # vs"
    by (auto simp add: exn_bind_eq_Inr)
  from v have d: "is_dict item" by (rule py_get_Inr_dict)
  with v have "v = field_of item key" by (simp add: py_get_field)
  with Cons.IH [OF vs] d vals show ?case by (simp add: flat_column_def)
qed

lemma length_flat_column [simp]: "length (flat_column L key items) = length items"
  by (simp add: flat_column_def)

subsection \<open>flatten_columns\<close>

lemma flatten_columns_ok:
  "list_all is_dict items \<Longrightarrow> length items = length (index df) \<Longrightarrow>
   \<exists>out. flatten_columns L pre keys items df = Inr out"
proof (induction keys arbitrary: df)
  case Nil
  then show ?case by simp
next
  case (Cons key keys)
  from Cons.prems obtain df1 where
    df1: "set_column df (pre @ key) (flat_column L key items) = Inr df1"
    using set_column_ok [of "flat_column L key items" df "pre @ key"] by auto
  then have "index df1 = index df" by (rule set_column_index)
  with Cons.IH [of df1] Cons.prems obtain out where
    "flatten_columns L pre keys items df1 = Inr out" by auto
  with df1 Cons.prems show ?case by (simp add: column_values_ok)
qed

lemma flatten_columns_Inr:
  assumes "flatten_columns L pre keys items df = Inr out" and "distinct keys"
  shows "index out = index df \<and>
     map fst (columns out) =
       map fst (columns df) @ [n \<leftarrow> map ((@) pre) keys. n \<notin> set (map fst (columns df))] \<and>
     (\<forall>k \<in> set keys. map_of (columns out) (pre @ k) = Some (flat_column L k items)) \<and>
     (\<forall>n. n \<notin> (@) pre ` set keys \<longrightarrow> map_of (columns out) n = map_of (columns df) n)"
  using assms
proof (induction keys arbitrary: df)
  case Nil
  then show ?case by simp
next
  case (Cons key keys)
  from Cons.prems(1) obtain vals df1 where
    vals: "column_values L key items = Inr vals" and
    df1: "set_column df (pre @ key) vals = Inr df1" and
    rest: "flatten_columns L pre keys items df1 = Inr out"
    by (auto simp add: exn_bind_eq_Inr)
  from vals have vals_eq: "vals = flat_column L key items"
    using column_values_Inr by blast
  from Cons.prems(2) have dk: "distinct keys" and nk: "key \<notin> set keys" by simp_all
  from Cons.IH [OF rest dk] have
    i: "index out = index df1" and
    n: "map fst (columns out) =
          map fst (columns df1) @ [n \<leftarrow> map ((@) pre) keys. n \<notin> set (map fst (columns df1))]" and
    m: "\<forall>k \<in> set keys. map_of (columns out) (pre @ k) = Some (flat_column L k items)" and
    o: "\<forall>n. n \<notin> (@) pre ` set keys \<longrightarrow> map_of (columns out) n = map_of (columns df1) n"
    by blast+
  have i1: "index df1 = index df" using df1 by (rule set_column_index)
  have n1: "map fst (columns df1) =
      map fst (columns df) @ [n \<leftarrow> [pre @ key]. n \<notin> set (map fst (columns df))]"
    using df1 by (rule set_column_names)
  have m1: "map_of (columns df1) = (map_of (columns df))(pre @ key \<mapsto> vals)"
    using df1 by (rule set_column_map_of)
  have fresh: "pre @ key \<notin> (@) pre ` set keys" using nk by auto
  have filt: "[n \<leftarrow> map ((@) pre) keys. n \<notin> set (map fst (columns df1))] =
              [n \<leftarrow> map ((@) pre) keys. n \<notin> set (map fst (columns df))]"
  proof (rule filter_cong [OF refl])
    fix n assume "n \<in> set (map ((@) pre) keys)"
    with fresh have "n \<noteq> pre @ key" by auto
    then show "(n \<notin> set (map fst (columns df1))) = (n \<notin> set (map fst (columns df)))"
      unfolding n1 by auto
  qed
  from n filt have n': "map fst (columns out) =
       map fst (columns df1) @ [n \<leftarrow> map ((@) pre) keys. n \<notin> set (map fst (columns df))]"
    by simp
  have names: "map fst (columns out) =
       map fst (columns df) @ [n \<leftarrow> map ((@) pre) (key # keys). n \<notin> set (map fst (columns df))]"
    unfolding n' n1 by simp
  have here: "map_of (columns out) (pre @ key) = Some (flat_column L key items)"
    using o fresh m1 vals_eq by simp
  have others: "\<forall>n. n \<notin> (@) pre ` set (key # keys) \<longrightarrow> map_of (columns out) n = map_of (columns df) n"
    using o m1 by auto
  from i i1 names here m others show ?case by simp
qed

subsection \<open>ordered_keys\<close>

lemma py_keys_dict: "is_dict item \<Longrightarrow> py_keys item = Inr (keys_of item)"
  by (cases item) (simp_all add: py_keys_def)

lemma py_keys_Inr: "py_keys item = Inr ks \<Longrightarrow> is_dict item \<and> ks = keys_of item"
  by (cases item) (auto simp add: py_keys_def)

lemma discovered_keys_ok:
  "list_all is_dict items \<Longrightarrow> discovered_keys items = Inr (concat (map keys_of items))"
  by (induction items) (simp_all add: py_keys_dict)

lemma discovered_keys_Inr:
  "discovered_keys items = Inr ks \<Longrightarrow> list_all is_dict items \<and> ks = concat (map keys_of items)"
proof (induction items arbitrary: ks)
  case Nil
  then show ?case by simp
next
  case (Cons item items)
  from Cons.prems obtain k1 rest where "py_keys item = Inr k1"
    "discovered_keys items = Inr rest" "ks = k1 @ rest"
    by (auto simp add: exn_bind_eq_Inr)
  with Cons.IH [of rest] py_keys_Inr [of item k1] show ?case by simp
qed

lemma finite_discovered [simp]: "finite (discovered items)"
  by (simp add: discovered_def)

lemma set_concat_keys: "set (concat (map keys_of items)) = discovered items"
  by (auto simp add: discovered_def)

lemma sort_extras:
  "sort [key \<leftarrow> remdups ks. key \<notin> set expected] = sorted_list_of_set (set ks - set expected)"
proof -
  have "set ks - set expected = set [key \<leftarrow> ks. key \<notin> set expected]" by auto
  then show ?thesis
    by (simp only: sorted_list_of_set_sort_remdups remdups_filter)
qed

lemma ordered_keys_ok:
  "list_all is_dict items \<Longrightarrow> ordered_keys items expected = Inr (key_order items expected)"
  by (simp add: ordered_keys_def discovered_keys_ok Let_def sort_extras key_order_def
        set_concat_keys del: set_concat)

lemma ordered_keys_Inr:
  assumes "ordered_keys items expected = Inr ks"
  shows "list_all is_dict items \<and> ks = key_order items expected"
proof -
  from assms obtain d where "discovered_keys items = Inr d"
    by (auto simp add: ordered_keys_def exn_bind_eq_Inr)
  then have "list_all is_dict items" using discovered_keys_Inr by blast
  with assms ordered_keys_ok [of items expected] show ?thesis by simp
qed

lemma distinct_key_order: "distinct expected \<Longrightarrow> distinct (key_order items expected)"
  by (auto simp add: key_order_def)

lemma set_key_order: "set (key_order items expected) = discovered items"
  by (auto simp add: key_order_def)

lemma distinct_expected: "distinct EXPECTED_CT_KEYS" "distinct EXPECTED_PET_KEYS"
  by (simp_all add: EXPECTED_CT_KEYS_def EXPECTED_PET_KEYS_def)

lemma length_sorted_results [simp]:
  "length (sorted_results L cfg api cp pp df order) = length order"
  by (simp add: sorted_results_def collect_results_def)

lemma run_extraction_unfold:
  "run_extraction L cfg api order df0 cp pp max_rows =
     (if api_key_missing cfg then Inl (RuntimeError, ''OPENAI_API_KEY is not set'')
      else
        let df = truncate_rows df0 max_rows;
            rs = sorted_results L cfg api cp pp df order
        in
        exn_bind (set_column df ''ct_json'' (map (\<lambda>x. PStr (json_dumps L x)) (map result_ct rs)))
          (\<lambda>b1.
        exn_bind (set_column b1 ''pet_json'' (map (\<lambda>x. PStr (json_dumps L x)) (map result_pet rs)))
          (\<lambda>b2.
        exn_bind (set_column b2 ''extraction_error'' (map PStr (map result_error rs))) (\<lambda>b3.
        exn_bind (ordered_keys (map result_ct rs) EXPECTED_CT_KEYS) (\<lambda>ct_keys.
        exn_bind (ordered_keys (map result_pet rs) EXPECTED_PET_KEYS) (\<lambda>pet_keys.
        exn_bind (flatten_columns L ''ct_'' ct_keys (map result_ct rs) b3) (\<lambda>o1.
        flatten_columns L ''pet_'' pet_keys (map result_pet rs) o1)))))))"
  by (simp add: run_extraction_def sorted_results_def Let_def)

lemma ct_pet_names_differ: "''ct_'' @ k \<noteq> ''pet_'' @ k'"
  by simp

lemma run_extraction_ok:
  assumes key: "\<not> api_key_missing cfg"
    and len: "length order = length (index (truncate_rows df0 max_rows))"
    and cts: "list_all is_dict (map result_ct
                (sorted_results L cfg api cp pp (truncate_rows df0 max_rows) order))"
    and pets: "list_all is_dict (map result_pet
                (sorted_results L cfg api cp pp (truncate_rows df0 max_rows) order))"
  shows "\<exists>out. run_extraction L cfg api order df0 cp pp max_rows = Inr out"
proof -
  let ?df = "truncate_rows df0 max_rows"
  let ?rs = "sorted_results L cfg api cp pp ?df order"
  from len obtain b1 where
    b1: "set_column ?df ''ct_json'' (map (\<lambda>x. PStr (json_dumps L x)) (map result_ct ?rs)) = Inr b1"
    using set_column_ok [of _ ?df] by fastforce
  then have i1: "index b1 = index ?df" by (rule set_column_index)
  with len obtain b2 where
    b2: "set_column b1 ''pet_json'' (map (\<lambda>x. PStr (json_dumps L x)) (map result_pet ?rs)) = Inr b2"
    using set_column_ok [of _ b1] by fastforce
  then have i2: "index b2 = index b1" by (rule set_column_index)
  with i1 len obtain b3 where
    b3: "set_column b2 ''extraction_error'' (map PStr (map result_error ?rs)) = Inr b3"
    using set_column_ok [of _ b2] by fastforce
  then have i3: "index b3 = index b2" by (rule set_column_index)
  from i1 i2 i3 len have l3: "length (map result_ct ?rs) = length (index b3)" by simp
  from flatten_columns_ok [OF cts l3] obtain o1 where
    o1: "flatten_columns L ''ct_'' (key_order (map result_ct ?rs) EXPECTED_CT_KEYS)
           (map result_ct ?rs) b3 = Inr o1"
    by blast
  have "index o1 = index b3"
    using flatten_columns_Inr [OF o1 distinct_key_order [OF distinct_expected(1)]] by blast
  with i1 i2 i3 len have l4: "length (map result_pet ?rs) = length (index o1)" by simp
  from flatten_columns_ok [OF pets l4] obtain out where
    out: "flatten_columns L ''pet_'' (key_order (map result_pet ?rs) EXPECTED_PET_KEYS)
           (map result_pet ?rs) o1 = Inr out"
    by blast
  show ?thesis
    unfolding run_extraction_unfold Let_def
    using key b1 b2 b3 o1 out ordered_keys_ok [OF cts] ordered_keys_ok [OF pets]
    by simp
qed

lemma run_extraction_Inr:
  assumes run: "run_extraction L cfg api order df0 cp pp max_rows = Inr out"
    and df: "df = truncate_rows df0 max_rows"
    and rs: "rs = sorted_results L cfg api cp pp df order"
    and cts: "cts = map result_ct rs"
    and pets: "pets = map result_pet rs"
  shows "\<not> api_key_missing cfg"
    and "length order = length (index df)"
    and "list_all is_dict cts" and "list_all is_dict pets"
    and "index out = index df"
    and "map fst (columns out) =
           base_names df @
           [n \<leftarrow> map ((@) ''ct_'') (key_order cts EXPECTED_CT_KEYS) @
                 map ((@) ''pet_'') (key_order pets EXPECTED_PET_KEYS).
              n \<notin> set (base_names df)]"
    and "\<forall>k \<in> discovered cts. map_of (columns out) (''ct_'' @ k) = Some (flat_column L k cts)"
    and "\<forall>k \<in> discovered pets. map_of (columns out) (''pet_'' @ k) = Some (flat_column L k pets)"
    and "map_of (columns out) ''extraction_error'' = Some (map PStr (map result_error rs))"
    and "''json'' \<notin> discovered cts \<longrightarrow>
           map_of (columns out) ''ct_json'' = Some (map (\<lambda>x. PStr (json_dumps L x)) cts)"
    and "''json'' \<notin> discovered pets \<longrightarrow>
           map_of (columns out) ''pet_json'' = Some (map (\<lambda>x. PStr (json_dumps L x)) pets)"
    and "\<forall>c. c \<notin> {''ct_json'', ''pet_json'', ''extraction_error''} \<and>
             c \<notin> (@) ''ct_'' ` discovered cts \<and> c \<notin> (@) ''pet_'' ` discovered pets \<longrightarrow>
             map_of (columns out) c = map_of (columns df) c"
proof -
  show key: "\<not> api_key_missing cfg"
    using run by (auto simp add: run_extraction_def split: if_splits)
  from run key obtain b1 b2 b3 ck pk o1 where
    b1: "set_column df ''ct_json'' (map (\<lambda>x. PStr (json_dumps L x)) cts) = Inr b1" and
    b2: "set_column b1 ''pet_json'' (map (\<lambda>x. PStr (json_dumps L x)) pets) = Inr b2" and
    b3: "set_column b2 ''extraction_error'' (map PStr (map result_error rs)) = Inr b3" and
    ck: "ordered_keys cts EXPECTED_CT_KEYS = Inr ck" and
    pk: "ordered_keys pets EXPECTED_PET_KEYS = Inr pk" and
    o1: "flatten_columns L ''ct_'' ck cts b3 = Inr o1" and
    out: "flatten_columns L ''pet_'' pk pets o1 = Inr out"
    unfolding run_extraction_unfold Let_def df rs cts pets
    by (auto simp add: exn_bind_eq_Inr)
  from set_column_length [OF b1] show len: "length order = length (index df)"
    by (simp add: cts rs)
  from ordered_keys_Inr [OF ck] have ck_eq: "ck = key_order cts EXPECTED_CT_KEYS" by simp
  from ordered_keys_Inr [OF pk] have pk_eq: "pk = key_order pets EXPECTED_PET_KEYS" by simp
  from ordered_keys_Inr [OF ck] show dc: "list_all is_dict cts" by simp
  from ordered_keys_Inr [OF pk] show dp: "list_all is_dict pets" by simp
  have dck: "distinct ck" unfolding ck_eq by (rule distinct_key_order [OF distinct_expected(1)])
  have dpk: "distinct pk" unfolding pk_eq by (rule distinct_key_order [OF distinct_expected(2)])
  have sck: "set ck = discovered cts" unfolding ck_eq by (rule set_key_order)
  have spk: "set pk = discovered pets" unfolding pk_eq by (rule set_key_order)
  note f1 = flatten_columns_Inr [OF o1 dck]
  note f2 = flatten_columns_Inr [OF out dpk]
  have i: "index b1 = index df" "index b2 = index b1" "index b3 = index b2"
    using b1 b2 b3 by (simp_all add: set_column_index)
  with f1 f2 show "index out = index df" by simp
  have n1: "map fst (columns b1) =
      map fst (columns df) @ [n \<leftarrow> [''ct_json'']. n \<notin> set (map fst (columns df))]"
    using b1 by (rule set_column_names)
  have n2: "map fst (columns b2) =
      map fst (columns b1) @ [n \<leftarrow> [''pet_json'']. n \<notin> set (map fst (columns b1))]"
    using b2 by (rule set_column_names)
  have n3: "map fst (columns b3) =
      map fst (columns b2) @ [n \<leftarrow> [''extraction_error'']. n \<notin> set (map fst (columns b2))]"
    using b3 by (rule set_column_names)
  have nb: "map fst (columns b3) = base_names df"
    unfolding n3 n2 n1 base_names_def by auto
  have no1: "map fst (columns o1) =
      base_names df @ [n \<leftarrow> map ((@) ''ct_'') ck. n \<notin> set (base_names df)]"
    using f1 nb by simp
  have filt: "[n \<leftarrow> map ((@) ''pet_'') pk. n \<notin> set (map fst (columns o1))] =
              [n \<leftarrow> map ((@) ''pet_'') pk. n \<notin> set (base_names df)]"
  proof (rule filter_cong [OF refl])
    fix n assume "n \<in> set (map ((@) ''pet_'') pk)"
    then have "n \<notin> set (map ((@) ''ct_'') ck)" by auto
    then show "(n \<notin> set (map fst (columns o1))) = (n \<notin> set (base_names df))"
      unfolding no1 by auto
  qed
  from f2 have "map fst (columns out) =
      map fst (columns o1) @ [n \<leftarrow> map ((@) ''pet_'') pk. n \<notin> set (map fst (columns o1))]"
    by blast
  with filt have "map fst (columns out) =
      map fst (columns o1) @ [n \<leftarrow> map ((@) ''pet_'') pk. n \<notin> set (base_names df)]"
    by simp
  then show "map fst (columns out) =
           base_names df @
           [n \<leftarrow> map ((@) ''ct_'') (key_order cts EXPECTED_CT_KEYS) @
                 map ((@) ''pet_'') (key_order pets EXPECTED_PET_KEYS).
              n \<notin> set (base_names df)]"
    unfolding no1 ck_eq pk_eq by simp
  have m3: "map_of (columns b3) =
      (map_of (columns df))(''ct_json'' \<mapsto> map (\<lambda>x. PStr (json_dumps L x)) cts,
         ''pet_json'' \<mapsto> map (\<lambda>x. PStr (json_dumps L x)) pets,
         ''extraction_error'' \<mapsto> map PStr (map result_error rs))"
    using set_column_map_of [OF b1] set_column_map_of [OF b2] set_column_map_of [OF b3]
    by simp
  have pet_other: "\<And>n. n \<notin> (@) ''pet_'' ` set pk \<Longrightarrow> map_of (columns out) n = map_of (columns o1) n"
    using f2 by blast
  have ct_other: "\<And>n. n \<notin> (@) ''ct_'' ` set ck \<Longrightarrow> map_of (columns o1) n = map_of (columns b3) n"
    using f1 by blast
  show "\<forall>k \<in> discovered pets. map_of (columns out) (''pet_'' @ k) = Some (flat_column L k pets)"
    using f2 spk by blast
  show "\<forall>k \<in> discovered cts. map_of (columns out) (''ct_'' @ k) = Some (flat_column L k cts)"
  proof
    fix k assume k: "k \<in> discovered cts"
    have "''ct_'' @ k \<notin> (@) ''pet_'' ` set pk" by auto
    then have "map_of (columns out) (''ct_'' @ k) = map_of (columns o1) (''ct_'' @ k)"
      by (rule pet_other)
    also have "\<dots> = Some (flat_column L k cts)" using f1 k sck by blast
    finally show "map_of (columns out) (''ct_'' @ k) = Some (flat_column L k cts)" .
  qed
  have ee1: "''extraction_error'' \<notin> (@) ''pet_'' ` set pk" by auto
  have ee2: "''extraction_error'' \<notin> (@) ''ct_'' ` set ck" by auto
  show "map_of (columns out) ''extraction_error'' = Some (map PStr (map result_error rs))"
    using pet_other [OF ee1] ct_other [OF ee2] m3 by simp
  show "''json'' \<notin> discovered cts \<longrightarrow>
           map_of (columns out) ''ct_json'' = Some (map (\<lambda>x. PStr (json_dumps L x)) cts)"
  proof
    assume "''json'' \<notin> discovered cts"
    then have a: "''ct_json'' \<notin> (@) ''ct_'' ` set ck" unfolding sck by auto
    have b: "''ct_json'' \<notin> (@) ''pet_'' ` set pk" by auto
    show "map_of (columns out) ''ct_json'' = Some (map (\<lambda>x. PStr (json_dumps L x)) cts)"
      using pet_other [OF b] ct_other [OF a] m3 by simp
  qed
  show "''json'' \<notin> discovered pets \<longrightarrow>
           map_of (columns out) ''pet_json'' = Some (map (\<lambda>x. PStr (json_dumps L x)) pets)"
  proof
    assume "''json'' \<notin> discovered pets"
    then have a: "''pet_json'' \<notin> (@) ''pet_'' ` set pk" unfolding spk by auto
    have b: "''pet_json'' \<notin> (@) ''ct_'' ` set ck" by auto
    show "map_of (columns out) ''pet_json'' = Some (map (\<lambda>x. PStr (json_dumps L x)) pets)"
      using pet_other [OF a] ct_other [OF b] m3 by simp
  qed
  show "\<forall>c. c \<notin> {''ct_json'', ''pet_json'', ''extraction_error''} \<and>
             c \<notin> (@) ''ct_'' ` discovered cts \<and> c \<notin> (@) ''pet_'' ` discovered pets \<longrightarrow>
             map_of (columns out) c = map_of (columns df) c"
    using pet_other ct_other m3 sck spk by auto
qed

lemma fst_completed [simp]: "fst (completed df t res) = index df ! t"
  by (cases res) (auto simp add: completed_def Let_def)

lemma fst_row_result [simp]: "fst (row_result L cfg api cp pp df t) = index df ! t"
  by (simp add: row_result_def)

lemma collect_results_rows:
  "collect_results L cfg api cp pp df order = map (row_result L cfg api cp pp df) order"
  by (simp add: collect_results_def row_result_def)

lemma sorted_results_keys:
  assumes "completion_order (length (index df)) order"
  shows "sorted (map fst (sorted_results L cfg api cp pp df order))"
    and "mset (map fst (sorted_results L cfg api cp pp df order)) = mset (index df)"
    and "set (sorted_results L cfg api cp pp df order) =
           row_result L cfg api cp pp df ` {0..<length (index df)}"
proof -
  let ?g = "row_result L cfg api cp pp df"
  show "sorted (map fst (sorted_results L cfg api cp pp df order))"
    by (simp add: sorted_results_def)
  from assms have m: "mset order = mset [0..<length (index df)]"
    by (simp add: completion_order_def)
  have "mset (map fst (sorted_results L cfg api cp pp df order)) =
        image_mset (\<lambda>t. index df ! t) (mset order)"
    by (simp add: sorted_results_def collect_results_rows multiset.map_comp comp_def)
  also have "\<dots> = mset (map (\<lambda>t. index df ! t) [0..<length (index df)])"
    unfolding m by simp
  also have "\<dots> = mset (index df)" by (simp add: map_nth)
  finally show "mset (map fst (sorted_results L cfg api cp pp df order)) = mset (index df)" .
  from m have "set order = {0..<length (index df)}"
    by (metis mset_eq_setD set_upt)
  then show "set (sorted_results L cfg api cp pp df order) = ?g ` {0..<length (index df)}"
    by (simp add: sorted_results_def collect_results_rows)
qed


lemma row_result_dicts:
  assumes "objects_only L cfg api cp pp df" and "t < length (index df)"
  shows "is_dict (result_ct (row_result L cfg api cp pp df t))"
    and "is_dict (result_pet (row_result L cfg api cp pp df t))"
proof -
  from assms have c: "case future_result L cfg api cp pp df t of
      Inl exc \<Rightarrow> True | Inr (ct_json, pet_json) \<Rightarrow> is_dict ct_json \<and> is_dict pet_json"
    by (simp add: objects_only_def list_all_iff)
  then show "is_dict (result_ct (row_result L cfg api cp pp df t))"
    by (cases "future_result L cfg api cp pp df t")
       (auto simp add: row_result_def completed_def result_ct_def Let_def)
  from c show "is_dict (result_pet (row_result L cfg api cp pp df t))"
    by (cases "future_result L cfg api cp pp df t")
       (auto simp add: row_result_def completed_def result_pet_def Let_def)
qed

lemma sorted_results_dicts:
  assumes ord: "completion_order (length (index df)) order"
    and obj: "objects_only L cfg api cp pp df"
  shows "list_all is_dict (map result_ct (sorted_results L cfg api cp pp df order))"
    and "list_all is_dict (map result_pet (sorted_results L cfg api cp pp df order))"
  using sorted_results_keys(3) [OF ord, of L cfg api cp pp] row_result_dicts [OF obj]
  by (auto simp add: list_all_iff)

lemma run_extraction_returns:
  assumes key: "\<not> api_key_missing cfg"
    and df: "df = truncate_rows df0 max_rows"
    and ord: "completion_order (length (index df)) order"
    and obj: "objects_only L cfg api cp pp df"
  shows "\<exists>out. run_extraction L cfg api order df0 cp pp max_rows = Inr out"
proof (rule run_extraction_ok [OF key])
  from ord have "mset order = mset [0..<length (index df)]" by (simp add: completion_order_def)
  then have "length order = length [0..<length (index df)]" by (rule mset_eq_length)
  then show "length order = length (index (truncate_rows df0 max_rows))" by (simp add: df)
  show "list_all is_dict (map result_ct
          (sorted_results L cfg api cp pp (truncate_rows df0 max_rows) order))"
    using sorted_results_dicts(1) [OF ord obj] by (simp add: df)
  show "list_all is_dict (map result_pet
          (sorted_results L cfg api cp pp (truncate_rows df0 max_rows) order))"
    using sorted_results_dicts(2) [OF ord obj] by (simp add: df)
qed





lemma take_min_length: "length xs = n \<Longrightarrow> take (min n k) xs = take k xs"
  by (simp add: min_def)

subsection \<open>The concrete run\<close>

lemma cfg0_key: "\<not> api_key_missing cfg0"
  by (simp add: api_key_missing_def cfg0_def)







subsection \<open>Properties of a run\<close>







text \<open>
  C10. \<^verbatim>\<open>max_rows\<close> truncates the input only when it is true in Python's sense. With
  \<^verbatim>\<open>max_rows = 0\<close> the run is the run with \<^verbatim>\<open>max_rows = None\<close>: the whole table is processed.
  With a positive \<^verbatim>\<open>max_rows = n\<close> the run is the run on the table of the first \<open>n\<close> rows of
  the input, in input order: the table that is returned has exactly these rows, and one
  task per such row has completed.
\<close>

theorem max_rows_truncation:
  "truncate_rows df (Some 0) = df \<and> truncate_rows df None = df \<and>
   run_extraction L cfg api order df cp pp (Some 0) = run_extraction L cfg api order df cp pp None \<and>
   (0 < n \<longrightarrow>
      index (truncate_rows df (Some n)) = take (nat n) (index df) \<and>
      map fst (columns (truncate_rows df (Some n))) = map fst (columns df) \<and>
      (wf_frame df \<longrightarrow>
         columns (truncate_rows df (Some n)) =
           map (\<lambda>col. (fst col, take (nat n) (snd col))) (columns df)) \<and>
      run_extraction L cfg api order df cp pp (Some n) =
        run_extraction L cfg api order (truncate_rows df (Some n)) cp pp None \<and>
      (\<forall>out. run_extraction L cfg api order df cp pp (Some n) = Inr out \<longrightarrow>
         index out = take (nat n) (index df) \<and>
         length order = min (length (index df)) (nat n)))"
proof (intro conjI impI allI)
  show "truncate_rows df (Some 0) = df" "truncate_rows df None = df"
    by (simp_all add: truncate_rows_def)
  show "run_extraction L cfg api order df cp pp (Some 0) = run_extraction L cfg api order df cp pp None"
    by (simp add: run_extraction_def truncate_rows_def)
next
  assume n: "0 < n"
  then show i: "index (truncate_rows df (Some n)) = take (nat n) (index df)"
    by (simp add: truncate_rows_def frame_head_def head_count_def Let_def min_def)
  show "map fst (columns (truncate_rows df (Some n))) = map fst (columns df)"
    using n by (simp add: truncate_rows_def frame_head_def Let_def comp_def)
  show "run_extraction L cfg api order df cp pp (Some n) =
        run_extraction L cfg api order (truncate_rows df (Some n)) cp pp None"
    by (simp add: run_extraction_def truncate_rows_def)
  {
    assume "wf_frame df"
    then have "\<forall>col \<in> set (columns df). length (snd col) = length (index df)"
      by (simp add: wf_frame_def list_all_iff)
    then show "columns (truncate_rows df (Some n)) =
           map (\<lambda>col. (fst col, take (nat n) (snd col))) (columns df)"
      using n by (simp add: truncate_rows_def frame_head_def head_count_def Let_def take_min_length)
  }
  {
    fix out assume run: "run_extraction L cfg api order df cp pp (Some n) = Inr out"
    note r = run_extraction_Inr [OF run refl refl refl refl]
    from r(5) i show "index out = take (nat n) (index df)" by simp
    from r(2) i show "length order = min (length (index df)) (nat n)" by simp
  }
qed

theorem max_rows_truncation_witness:
  "(0::int) < 1 \<and> wf_frame df2 \<and>
   index (truncate_rows df2 (Some 1)) = [0] \<and>
   (\<exists>out. run_extraction lib0 cfg0 api2 [0] df2 ''ct prompt'' ''pet prompt'' (Some 1) = Inr out \<and>
      index out = take (nat 1) (index df2) \<and>
      length [0::nat] = min (length (index df2)) (nat 1))"
proof -
  have p: "(0::int) < 1" by simp
  have w: "wf_frame df2" by code_simp
  have i: "index (truncate_rows df2 (Some 1)) = [0]"
    by (simp add: truncate_rows_def frame_head_def head_count_def df2_def Let_def)
  have o: "completion_order (length (index (truncate_rows df2 (Some 1)))) [0]"
    unfolding i by (simp add: completion_order_def)
  have ob: "objects_only lib0 cfg0 api2 ''ct prompt'' ''pet prompt'' (truncate_rows df2 (Some 1))"
    by code_simp
  from run_extraction_returns [OF cfg0_key refl o ob] obtain out where
    run: "run_extraction lib0 cfg0 api2 [0] df2 ''ct prompt'' ''pet prompt'' (Some 1) = Inr out"
    by blast
  from max_rows_truncation [of df2 lib0 cfg0 api2 "[0]" "''ct prompt''" "''pet prompt''" 1] p run
  have "index out = take (nat 1) (index df2) \<and>
      length [0::nat] = min (length (index df2)) (nat 1)"
    by blast
  with run have "\<exists>out.
      run_extraction lib0 cfg0 api2 [0] df2 ''ct prompt'' ''pet prompt'' (Some 1) = Inr out \<and>
      index out = take (nat 1) (index df2) \<and>
      length [0::nat] = min (length (index df2)) (nat 1)"
    by blast
  with p w i show ?thesis by blast
qed

end
